theory Spec2Isabelle
  imports Complex_Main
begin

section \<open>JavaScript strings and numbers\<close>

text \<open>
  Strings are lists of characters with code units below 256.  \<open>toLowerCase\<close> maps the
  upper-case letters of that range (A-Z and the Latin-1 capitals) to their lower-case forms
  and leaves every other character alone; \<open>includes\<close> is the substring test.
\<close>

definition toLowerChar :: "char \<Rightarrow> char" where
  "toLowerChar c = (let n = (of_char c :: nat) in
     if (65 \<le> n \<and> n \<le> 90) \<or> (192 \<le> n \<and> n \<le> 222 \<and> n \<noteq> 215)
     then char_of (n + 32) else c)"

definition toLowerCase :: "string \<Rightarrow> string" where
  "toLowerCase s = map toLowerChar s"

fun startsWith :: "string \<Rightarrow> string \<Rightarrow> bool" where
  "startsWith s [] = True"
| "startsWith [] (k # ks) = False"
| "startsWith (c # cs) (k # ks) = (c = k \<and> startsWith cs ks)"

fun js_includes :: "string \<Rightarrow> string \<Rightarrow> bool" where
  "js_includes [] k = (k = [])"
| "js_includes (c # cs) k = (startsWith (c # cs) k \<or> js_includes cs k)"

text \<open>
  A JavaScript number that the tracker computes is either \<open>NaN\<close> (the quotient 0/0 and
  everything derived from it) or an integer.  Every comparison with \<open>NaN\<close> is false.
\<close>

datatype jsnum = NaN | Num int

fun js_ge :: "jsnum \<Rightarrow> int \<Rightarrow> bool" where
  "js_ge NaN k = False"
| "js_ge (Num v) k = (k \<le> v)"

fun Math_max :: "jsnum \<Rightarrow> int \<Rightarrow> jsnum" where
  "Math_max NaN k = NaN"
| "Math_max (Num v) k = Num (max v k)"

subsection \<open>Double-precision arithmetic\<close>

text \<open>
  The quotient \<open>answered / requirements.length\<close> and its product with 100 are IEEE 754
  binary64 operations: the exact result rounded to the nearest double, ties to the even
  mantissa.  \<open>ilog2 x\<close> is the binary exponent of a positive rational, \<open>rne\<close> rounds to
  the nearest integer with ties to even, and \<open>rd\<close> rounds a non-negative rational to a
  double with a 53-bit mantissa (the values here lie between \<open>2 powi -53\<close> and 100, far
  from the subnormal and overflow ranges).  \<open>Math.round\<close> is exact: the nearest integer,
  ties towards plus infinity.
\<close>

definition rne :: "rat \<Rightarrow> int" where
  "rne x = (let f = \<lfloor>x\<rfloor>; d = x - of_int f in
     if d < 1/2 then f else if 1/2 < d then f + 1 else if even f then f else f + 1)"

lemma ilog2_term_up:
  fixes x :: rat
  assumes "0 < x" "x < 1"
  shows "(if 2 * x < 1 then nat \<lceil>1 / (2 * x)\<rceil> else nat \<lfloor>2 * x\<rfloor>) < nat \<lceil>1 / x\<rceil>"
proof (cases "2 * x < 1")
  case True
  have y2: "2 < 1 / x" using assms True by (simp add: field_simps)
  define y where "y = 1 / x"
  have "y / 2 \<le> y - 1" using y2 unfolding y_def [symmetric] by linarith
  moreover have "1 / (2 * x) = y / 2" by (simp add: y_def)
  ultimately have "1 / (2 * x) \<le> 1 / x - 1" by (simp add: y_def)
  then have "\<lceil>1 / (2 * x)\<rceil> \<le> \<lceil>1 / x - 1\<rceil>" by (rule ceiling_mono)
  also have "\<dots> = \<lceil>1 / x\<rceil> - 1" by simp
  finally have "\<lceil>1 / (2 * x)\<rceil> < \<lceil>1 / x\<rceil>" by simp
  moreover have "0 < \<lceil>1 / x\<rceil>" using y2 assms by (simp add: less_ceiling_iff)
  ultimately show ?thesis using True by simp
next
  case False
  have "2 * x < 2" using assms by simp
  then have "\<lfloor>2 * x\<rfloor> \<le> 1" by (simp add: floor_le_iff)
  moreover have "1 < 1 / x" using assms by (simp add: field_simps)
  then have "1 < \<lceil>1 / x\<rceil>" by (simp add: less_ceiling_iff)
  ultimately have "nat \<lfloor>2 * x\<rfloor> < nat \<lceil>1 / x\<rceil>" by linarith
  then show ?thesis using False by simp
qed

lemma ilog2_term_down:
  fixes x :: rat
  assumes "2 \<le> x"
  shows "nat \<lfloor>x / 2\<rfloor> < nat \<lfloor>x\<rfloor>"
proof -
  have "x / 2 \<le> x - 1" using assms by linarith
  then have "\<lfloor>x / 2\<rfloor> \<le> \<lfloor>x - 1\<rfloor>" by (rule floor_mono)
  also have "\<dots> = \<lfloor>x\<rfloor> - 1" by simp
  finally have "\<lfloor>x / 2\<rfloor> < \<lfloor>x\<rfloor>" by simp
  moreover have "0 < \<lfloor>x\<rfloor>" using assms by (simp add: less_floor_iff)
  ultimately show ?thesis by simp
qed

function ilog2 :: "rat \<Rightarrow> int" where
  "ilog2 x = (if x \<le> 0 then 0
     else if x < 1 then ilog2 (2 * x) - 1
     else if 2 \<le> x then ilog2 (x / 2) + 1
     else 0)"
  by pat_completeness auto
termination
proof (relation "measure (\<lambda>x. if x < 1 then nat \<lceil>1 / x\<rceil> else nat \<lfloor>x\<rfloor>)")
  show "wf (measure (\<lambda>x::rat. if x < 1 then nat \<lceil>1 / x\<rceil> else nat \<lfloor>x\<rfloor>))" by simp
next
  fix x :: rat
  assume a: "\<not> x \<le> 0" "x < 1"
  then show "(2 * x, x) \<in> measure (\<lambda>x. if x < 1 then nat \<lceil>1 / x\<rceil> else nat \<lfloor>x\<rfloor>)"
    using ilog2_term_up [of x] by simp
next
  fix x :: rat
  assume a: "\<not> x \<le> 0" "\<not> x < 1" "2 \<le> x"
  then show "(x / 2, x) \<in> measure (\<lambda>x. if x < 1 then nat \<lceil>1 / x\<rceil> else nat \<lfloor>x\<rfloor>)"
    using ilog2_term_down [of x] by simp
qed

declare ilog2.simps [simp del]

definition rd :: "rat \<Rightarrow> rat" where
  "rd x = (if x \<le> 0 then 0 else
     let u = 2 powi (ilog2 x - 52) in of_int (rne (x / u)) * u)"

definition Math_round :: "rat \<Rightarrow> int" where
  "Math_round x = \<lfloor>x + 1/2\<rfloor>"

section \<open>The requirement tracker (lib/prompting-system.ts)\<close>

datatype category = scope | triggers | resources | inputs | destinations | errors

datatype priority = high | medium | low

datatype phase = discovery | validation | generation | complete

record WorkflowRequirement =
  category :: category
  question :: string
  answered :: bool
  answer :: "string option"
  priority :: priority

record ConversationState =
  phase :: phase
  requirements :: "WorkflowRequirement list"
  completeness :: jsnum
  currentFocus :: "string option"

fun category_name :: "category \<Rightarrow> string" where
  "category_name scope = ''scope''"
| "category_name triggers = ''triggers''"
| "category_name resources = ''resources''"
| "category_name inputs = ''inputs''"
| "category_name destinations = ''destinations''"
| "category_name errors = ''errors''"

definition baseRequirements :: "WorkflowRequirement list" where
  "baseRequirements =
    [\<lparr>category = scope, question = ''What business process are you looking to automate?'',
       answered = False, answer = None, priority = high\<rparr>,
     \<lparr>category = triggers, question = ''What event should start this automation?'',
       answered = False, answer = None, priority = high\<rparr>,
     \<lparr>category = resources,
       question = ''What platforms, tools, or services need to be connected?'',
       answered = False, answer = None, priority = high\<rparr>,
     \<lparr>category = inputs, question = ''What information flows through this process?'',
       answered = False, answer = None, priority = medium\<rparr>,
     \<lparr>category = destinations, question = ''Where should the final results be delivered?'',
       answered = False, answer = None, priority = medium\<rparr>,
     \<lparr>category = errors, question = ''What should happen if something goes wrong?'',
       answered = False, answer = None, priority = low\<rparr>]"

definition customizeRequirements ::
  "WorkflowRequirement list \<Rightarrow> string \<Rightarrow> WorkflowRequirement list" where
  "customizeRequirements reqs userInput =
    (let input = toLowerCase userInput;
         r1 = (if js_includes input ''email''
               then reqs @ [\<lparr>category = inputs,
                  question = ''What email criteria should trigger the automation (sender, subject, attachments)?'',
                  answered = False, answer = None, priority = high\<rparr>]
               else reqs);
         r2 = (if js_includes input ''schedule'' \<or> js_includes input ''daily''
                  \<or> js_includes input ''weekly''
               then r1[1 := (r1 ! 1)\<lparr>question := ''What schedule should this automation run on?''\<rparr>]
               else r1);
         r3 = (if js_includes input ''data'' \<or> js_includes input ''spreadsheet''
                  \<or> js_includes input ''csv''
               then r2 @ [\<lparr>category = inputs,
                  question = ''What format is your data in and how should it be processed?'',
                  answered = False, answer = None, priority = medium\<rparr>]
               else r2)
     in r3)"

definition initializeRequirements :: "string \<Rightarrow> WorkflowRequirement list" where
  "initializeRequirements userInput = customizeRequirements baseRequirements userInput"

fun categoryKeywords :: "category \<Rightarrow> string list" where
  "categoryKeywords scope = [''automate'', ''process'', ''task'', ''workflow'', ''want to'',
       ''need to'', ''daily'', ''weekly'', ''schedule'']"
| "categoryKeywords triggers = [''when'', ''trigger'', ''start'', ''schedule'', ''webhook'',
       ''email arrives'', ''at'', ''daily'', ''weekly'', ''time'']"
| "categoryKeywords resources = [''gmail'', ''slack'', ''sheets'', ''api'', ''service'', ''connect'',
       ''integration'', ''twitter'', ''openai'', ''email'']"
| "categoryKeywords inputs = [''data'', ''information'', ''file'', ''email'', ''form'', ''input'',
       ''content'', ''message'']"
| "categoryKeywords destinations = [''send'', ''save'', ''output'', ''notify'', ''store'', ''forward'',
       ''email'', ''to'', ''@'']"
| "categoryKeywords errors = [''error'', ''fail'', ''wrong'', ''retry'', ''fallback'', ''notification'',
       ''notify'', ''email'']"

definition checkIfRequirementAnswered :: "WorkflowRequirement \<Rightarrow> string \<Rightarrow> bool" where
  "checkIfRequirementAnswered requirement message =
     list_ex (\<lambda>keyword. js_includes message keyword) (categoryKeywords (category requirement))"

definition summaryIndicators :: "string list" where
  "summaryIndicators = [''workflow summary'', ''key components'', ''trigger:'',
     ''processing:'', ''output:'', ''error handling:'']"

definition checkIfRequirementInResponse :: "WorkflowRequirement \<Rightarrow> string \<Rightarrow> bool" where
  "checkIfRequirementInResponse requirement response =
     list_ex (\<lambda>indicator. js_includes response indicator) summaryIndicators"

definition analyzeAndUpdateRequirements ::
  "WorkflowRequirement list \<Rightarrow> string \<Rightarrow> string \<Rightarrow> WorkflowRequirement list" where
  "analyzeAndUpdateRequirements reqs userMessage aiResponse =
    (let message = toLowerCase userMessage; response = toLowerCase aiResponse in
     map (\<lambda>req.
        if answered req then req
        else let isAnswered = checkIfRequirementAnswered req message
                                \<or> checkIfRequirementInResponse req response
             in req\<lparr>answered := isAnswered,
                    answer := (if isAnswered then Some userMessage else None)\<rparr>) reqs)"

text \<open>
  \<open>baseCompleteness\<close> is \<open>Math.round((answered / requirements.length) * 100)\<close>: for the
  empty list the quotient is 0/0, that is \<open>NaN\<close>, which \<open>Math.round\<close> and \<open>Math.max\<close>
  pass on.  The constant \<open>0.8\<close> is the double nearest to 4/5, and
  \<open>coreRequirements.length * 0.8\<close> is a double product.
\<close>

definition baseCompleteness :: "nat \<Rightarrow> nat \<Rightarrow> jsnum" where
  "baseCompleteness nAnswered n =
     (if n = 0 then NaN
      else Num (Math_round (rd (rd (of_nat nAnswered / of_nat n) * 100))))"

definition coreThreshold :: "nat \<Rightarrow> rat" where
  "coreThreshold nCore = rd (of_nat nCore * rd (4 / 5))"

definition calculateCompleteness :: "WorkflowRequirement list \<Rightarrow> jsnum" where
  "calculateCompleteness reqs =
    (let nAnswered = length (filter answered reqs);
         base = baseCompleteness nAnswered (length reqs);
         coreRequirements = filter (\<lambda>r. priority r = high) reqs;
         coreAnswered = length (filter answered coreRequirements)
     in if coreThreshold (length coreRequirements) \<le> of_nat coreAnswered
        then Math_max base 80 else base)"

definition getCurrentFocus :: "WorkflowRequirement list \<Rightarrow> string" where
  "getCurrentFocus reqs =
    (let unanswered = filter (\<lambda>r. \<not> answered r) reqs in
     if length unanswered = 0 then ''Ready for generation''
     else let highPriority = filter (\<lambda>r. priority r = high) unanswered in
       if 0 < length highPriority then category_name (category (hd highPriority))
       else category_name (category (hd unanswered)))"

definition updateConversationState ::
  "ConversationState \<Rightarrow> string \<Rightarrow> string \<Rightarrow> ConversationState" where
  "updateConversationState currentState userMessage aiResponse =
    (let updatedRequirements =
           analyzeAndUpdateRequirements (requirements currentState) userMessage aiResponse;
         c = calculateCompleteness updatedRequirements;
         p = (if js_ge c 80 \<and> phase currentState = discovery then validation
              else if js_ge c 90 \<and> phase currentState = validation then generation
              else phase currentState)
     in currentState\<lparr>requirements := updatedRequirements, completeness := c,
          phase := p, currentFocus := Some (getCurrentFocus updatedRequirements)\<rparr>)"

definition shouldGenerateWorkflow :: "ConversationState \<Rightarrow> bool" where
  "shouldGenerateWorkflow state = (js_ge (completeness state) 80 \<and> phase state = generation)"

text \<open>
  The chat route (app/api/ai-chat/route.ts) creates the state of a new conversation from
  the first user message; the "clear conversation" action of the client drops the state,
  so that the next request creates it afresh.
\<close>

definition newConversationState :: "string \<Rightarrow> ConversationState" where
  "newConversationState userMessage =
     \<lparr>phase = discovery, requirements = initializeRequirements userMessage,
      completeness = Num 0, currentFocus = Some ''Initial discovery''\<rparr>"

fun updates :: "ConversationState \<Rightarrow> (string \<times> string) list \<Rightarrow> ConversationState" where
  "updates s [] = s"
| "updates s ((m, r) # turns) = updates (updateConversationState s m r) turns"

fun phase_rank :: "phase \<Rightarrow> nat" where
  "phase_rank discovery = 0"
| "phase_rank validation = 1"
| "phase_rank generation = 2"
| "phase_rank complete = 3"

text \<open>
  "Never decreases" on the numbers the tracker computes: an integer is followed by an
  integer that is at least as large, and \<open>NaN\<close> (the empty requirement list) by
  \<open>NaN\<close>.  \<open>completeness_trace\<close> lists the completeness values that successive updates
  return, and \<open>only_gains q q'\<close> says that \<open>q'\<close> keeps the priority of \<open>q\<close> and is answered
  whenever \<open>q\<close> is.
\<close>

fun js_nondecreasing :: "jsnum \<Rightarrow> jsnum \<Rightarrow> bool" where
  "js_nondecreasing NaN NaN = True"
| "js_nondecreasing (Num a) (Num b) = (a \<le> b)"
| "js_nondecreasing NaN (Num b) = False"
| "js_nondecreasing (Num a) NaN = False"

fun completeness_trace :: "ConversationState \<Rightarrow> (string \<times> string) list \<Rightarrow> jsnum list" where
  "completeness_trace s [] = []"
| "completeness_trace s ((m, r) # turns) =
     completeness (updateConversationState s m r)
       # completeness_trace (updateConversationState s m r) turns"

definition only_gains :: "WorkflowRequirement \<Rightarrow> WorkflowRequirement \<Rightarrow> bool" where
  "only_gains q q' = (priority q' = priority q \<and> (answered q \<longrightarrow> answered q'))"


definition req :: "priority \<Rightarrow> bool \<Rightarrow> WorkflowRequirement" where
  "req p a = \<lparr>category = scope, question = ''q'', answered = a,
     answer = (if a then Some ''a'' else None), priority = p\<rparr>"

definition example_state :: ConversationState where
  "example_state =
     \<lparr>phase = discovery,
      requirements = [\<lparr>category = scope, question = ''What to automate?'', answered = False,
         answer = None, priority = high\<rparr>],
      completeness = Num 0, currentFocus = Some ''Initial discovery''\<rparr>"

section \<open>JSON values\<close>

text \<open>
  The values \<open>JSON.parse\<close> produces.  A number carries its exact value; an object is the
  list of its members in source order, and a later member with the same key overrides an
  earlier one.  Reading a property gives \<open>None\<close> for \<open>undefined\<close>.
\<close>

datatype json = JNull | JBool bool | JNum rat | JStr string | JArr "json list"
  | JObj "(string \<times> json) list"

fun js_get :: "json \<Rightarrow> string \<Rightarrow> json option" where
  "js_get (JObj members) k = map_of (rev members) k"
| "js_get v k = None"

section \<open>The provider gateway (app/api/ai-chat/route.ts)\<close>

text \<open>
  A provider call either returns the generated text or throws an \<open>Error\<close> with a message
  and an optional \<open>cause\<close> (the parsed error body of the provider).
\<close>

datatype call_result = Returned string | Threw string "json option"

record gateway =
  failedProviders :: "string set"
  sessionStartTime :: int

definition SESSION_RESET_INTERVAL :: int where
  "SESSION_RESET_INTERVAL = 30 * 60 * 1000"

definition resetSessionIfNeeded :: "int \<Rightarrow> gateway \<Rightarrow> gateway" where
  "resetSessionIfNeeded now g =
     (if now - sessionStartTime g > SESSION_RESET_INTERVAL
      then \<lparr>failedProviders = {}, sessionStartTime = now\<rparr> else g)"

record aiResponse =
  content :: string
  provider :: string
  fallback :: "bool option"
  fallbackReason :: "string option"
  errorCode :: "string option"
  originalProvider :: "string option"
  fallbackProvider :: "string option"
  showNotification :: "bool option"
  silentFallback :: "bool option"

datatype chat_result =
    Failure nat string "string option" "string option"
  | Answer aiResponse

definition plainResponse :: "string \<Rightarrow> string \<Rightarrow> aiResponse" where
  "plainResponse c p = \<lparr>content = c, provider = p, fallback = None, fallbackReason = None,
     errorCode = None, originalProvider = None, fallbackProvider = None,
     showNotification = None, silentFallback = None\<rparr>"

definition findKey :: "(string \<times> string) list \<Rightarrow> string \<Rightarrow> string option" where
  "findKey apiKeys name =
     map_option snd (List.find (\<lambda>key. js_includes (toLowerCase (fst key)) name) apiKeys)"

text \<open>
  The classification of a failure of the first provider: the fallback reason, the error
  code, whether to fall back, and whether the provider joins the recently-failed set.
\<close>

definition classify :: "json option \<Rightarrow> string \<times> string \<times> bool \<times> bool" where
  "classify errorCause =
     (case errorCause of
        Some (JObj members) \<Rightarrow>
          (if js_get (JObj members) ''code'' = Some (JStr ''context_length_exceeded'')
           then (''OpenAI context length exceeded (conversation too long)'',
                 ''CONTEXT_LENGTH_EXCEEDED'', True, False)
           else if js_get (JObj members) ''type'' = Some (JStr ''insufficient_quota'')
           then (''OpenAI API credits exhausted'', ''CREDITS_LOW'', True, True)
           else if js_get (JObj members) ''type'' = Some (JStr ''rate_limit_error'')
           then (''OpenAI API rate limit exceeded'', ''RATE_LIMIT'', True, True)
           else (''OpenAI API error'', ''OPENAI_UNKNOWN'', False, False))
      | _ \<Rightarrow> (''OpenAI API error'', ''OPENAI_UNKNOWN'', False, False))"

definition isTemporaryError :: "string \<Rightarrow> bool \<Rightarrow> bool" where
  "isTemporaryError errorMessage shouldFallback =
     (js_includes errorMessage ''529'' \<or> js_includes errorMessage ''overloaded''
      \<or> js_includes errorMessage ''rate_limit'' \<or> js_includes errorMessage ''503''
      \<or> js_includes errorMessage ''timeout'' \<or> shouldFallback)"

text \<open>
  One conversational turn of \<open>POST\<close>, from the reset of the suppression set to the
  provider's answer: \<open>apiKeysQuery\<close> is the list of configured credentials (\<open>None\<close> when
  the query for them fails), \<open>openai\<close> and \<open>claude\<close> what each provider does when it is
  called.  (\<open>POST\<close> then adds the updated
  conversation state to an answer.)
\<close>

definition chatTurn ::
  "int \<Rightarrow> (string \<times> string) list option \<Rightarrow> call_result \<Rightarrow> call_result
     \<Rightarrow> gateway \<Rightarrow> chat_result \<times> gateway" where
  "chatTurn now apiKeysQuery openai claude g0 =
    (let g = resetSessionIfNeeded now g0 in
     case apiKeysQuery of
       None \<Rightarrow> (Failure 500 ''Failed to fetch API keys'' None None, g)
     | Some apiKeys \<Rightarrow>
     if apiKeys = [] then (Failure 400 ''No API keys configured'' None None, g)
     else
       let claudeKey = findKey apiKeys ''claude''; openaiKey = findKey apiKeys ''openai'' in
       if openaiKey \<noteq> None \<and> ''openai'' \<notin> failedProviders g then
         (case openai of
            Returned c \<Rightarrow> (Answer (plainResponse c ''openai''), g)
          | Threw errorMessage errorCause \<Rightarrow>
              (case classify errorCause of (reason, code, shouldFallback, markFailed) \<Rightarrow>
                 let g' = (if markFailed
                           then g\<lparr>failedProviders := insert ''openai'' (failedProviders g)\<rparr>
                           else g);
                     temporary = isTemporaryError errorMessage shouldFallback
                 in if temporary \<and> claudeKey \<noteq> None then
                      (case claude of
                         Returned c \<Rightarrow>
                           (Answer ((plainResponse c ''claude'')
                              \<lparr>fallback := Some True, fallbackReason := Some reason,
                               errorCode := Some code, originalProvider := Some ''openai'',
                               fallbackProvider := Some ''claude'',
                               showNotification := Some (''openai'' \<notin> failedProviders g')\<rparr>), g')
                       | Threw m2 c2 \<Rightarrow>
                           (Failure 503
                              ''Both OpenAI and Claude are currently unavailable. Please try again in a moment.''
                              (Some (''OpenAI: '' @ reason @ '', Claude fallback failed''))
                              (Some ''ALL_PROVIDERS_FAILED''), g'))
                    else
                      (Failure 503
                         (if temporary then reason @ '' and no backup provider is configured''
                          else ''OpenAI API error occurred'')
                         (Some errorMessage) (Some code), g')))
       else if claudeKey \<noteq> None then
         (case claude of
            Returned c \<Rightarrow>
              (Answer ((plainResponse c ''claude'')
                 \<lparr>silentFallback := (if ''openai'' \<in> failedProviders g then Some True else None)\<rparr>), g)
          | Threw m2 c2 \<Rightarrow>
              (Failure 503 ''Claude API is currently unavailable'' (Some m2)
                 (Some ''CLAUDE_FAILED''), g))
       else
         (Failure 400
            ''No AI providers are configured. Please add API keys in Advanced Settings.''
            (Some ''Both Claude and OpenAI API keys are missing'') (Some ''NO_API_KEYS''), g))"

text \<open>
  The client (handleSendMessage in components/ai-conversation-builder.tsx) raises the
  provider notification exactly when this test on the response passes.
\<close>

definition notifies :: "aiResponse \<Rightarrow> bool" where
  "notifies response =
     (fallback response = Some True
      \<and> (case errorCode response of Some c \<Rightarrow> c \<noteq> [] | None \<Rightarrow> False)
      \<and> showNotification response \<noteq> Some False
      \<and> silentFallback response \<noteq> Some True)"

text \<open>
  A configuration with both credentials, a first provider that fails with a rate-limit
  error body, and a fresh suppression set.
\<close>

definition both_keys :: "(string \<times> string) list" where
  "both_keys = [(''OpenAI'', ''sk-1''), (''Claude'', ''sk-2'')]"

definition rate_limited :: call_result where
  "rate_limited = Threw ''OpenAI API error: 429 - too many requests''
     (Some (JObj [(''message'', JStr ''too many requests''), (''type'', JStr ''rate_limit_error'')]))"

definition fresh_gateway :: gateway where
  "fresh_gateway = \<lparr>failedProviders = {}, sessionStartTime = 0\<rparr>"

section \<open>Workflow generation (handleGenerateWorkflow in components/ai-conversation-builder.tsx)\<close>

subsection \<open>String operations\<close>

text \<open>
  White space, for \<open>trim\<close> and for \<open>\s\<close> in a regular expression: tab, line feed,
  vertical tab, form feed, carriage return, space and the no-break space.
\<close>

definition is_space :: "char \<Rightarrow> bool" where
  "is_space c = (of_char c \<in> {9, 10, 11, 12, 13, 32, 160 :: nat})"

definition trim :: "string \<Rightarrow> string" where
  "trim s = rev (dropWhile is_space (rev (dropWhile is_space s)))"

definition fence :: string where
  "fence = [CHR 0x60, CHR 0x60, CHR 0x60]"

lemma startsWith_length: "startsWith s k \<Longrightarrow> length k \<le> length s"
  by (induction s k rule: startsWith.induct) auto

text \<open>
  \<open>replace(/```(?:json)?\s*/g, "")\<close>: wherever three backticks stand, they go, together
  with a following \<open>json\<close> and the white space after that.
\<close>

function stripOpenFences :: "string \<Rightarrow> string" where
  "stripOpenFences [] = []"
| "stripOpenFences (c # cs) =
     (if startsWith (c # cs) fence
      then let r = drop 3 (c # cs); r' = (if startsWith r ''json'' then drop 4 r else r)
           in stripOpenFences (dropWhile is_space r')
      else c # stripOpenFences cs)"
  by pat_completeness auto
termination
proof (relation "measure length")
  show "wf (measure (length :: string \<Rightarrow> nat))" by simp
next
  fix c :: char and cs r r' :: string
  assume a: "startsWith (c # cs) fence" and r: "r = drop 3 (c # cs)"
    and r': "r' = (if startsWith r ''json'' then drop 4 r else r)"
  have "length (dropWhile is_space r') \<le> length r'" by (rule length_dropWhile_le)
  also have "length r' \<le> length r" by (simp add: r')
  also have "length r < length (c # cs)" by (simp add: r)
  finally show "(dropWhile is_space r', c # cs) \<in> measure length" by simp
next
  fix c :: char and cs :: string
  show "(cs, c # cs) \<in> measure length" by simp
qed

text \<open>
  \<open>replace(/\s*```/g, "")\<close>: a match at a position takes the whole run of white space
  there and needs the three backticks right after it.
\<close>

function stripCloseFences :: "string \<Rightarrow> string" where
  "stripCloseFences [] = []"
| "stripCloseFences (c # cs) =
     (let r = dropWhile is_space (c # cs)
      in if startsWith r fence then stripCloseFences (drop 3 r)
         else c # stripCloseFences cs)"
  by pat_completeness auto
termination
proof (relation "measure length")
  show "wf (measure (length :: string \<Rightarrow> nat))" by simp
next
  fix c :: char and cs r :: string
  assume r: "r = dropWhile is_space (c # cs)" and a: "startsWith r fence"
  have "3 \<le> length r" using startsWith_length [OF a] by (simp add: fence_def)
  then have "length (drop 3 r) < length r" by simp
  also have "length r \<le> length (c # cs)" unfolding r by (rule length_dropWhile_le)
  finally show "(drop 3 r, c # cs) \<in> measure length" by simp
next
  fix c :: char and cs :: string
  show "(cs, c # cs) \<in> measure length" by simp
qed

fun indexOf :: "string \<Rightarrow> char \<Rightarrow> int" where
  "indexOf [] c = - 1"
| "indexOf (x # xs) c =
     (if x = c then 0 else let i = indexOf xs c in if i = - 1 then - 1 else i + 1)"

definition lastIndexOf :: "string \<Rightarrow> char \<Rightarrow> int" where
  "lastIndexOf s c =
     (let i = indexOf (rev s) c in if i = - 1 then - 1 else int (length s) - 1 - i)"

definition substring :: "string \<Rightarrow> int \<Rightarrow> int \<Rightarrow> string" where
  "substring s a b =
     (let n = int (length s); a' = min (max a 0) n; b' = min (max b 0) n;
          from = min a' b'; to = max a' b'
      in take (nat (to - from)) (drop (nat from) s))"

fun decimal :: "nat \<Rightarrow> string" where
  "decimal n = (if n < 10 then [char_of (48 + n)]
                else decimal (n div 10) @ [char_of (48 + n mod 10)])"

declare decimal.simps [simp del]


subsection \<open>Values, truthiness and the JavaScript engine\<close>

text \<open>
  \<open>js_truthy\<close> is the truth value of a property that was read (\<open>None\<close> is
  \<open>undefined\<close>): a number is falsy when it is zero as a double, that is when its
  magnitude is at most \<open>2 powi -1075\<close>.
\<close>

fun js_truthy :: "json option \<Rightarrow> bool" where
  "js_truthy None = False"
| "js_truthy (Some JNull) = False"
| "js_truthy (Some (JBool b)) = b"
| "js_truthy (Some (JNum v)) = (2 powi (- 1075) < \<bar>v\<bar>)"
| "js_truthy (Some (JStr s)) = (s \<noteq> [])"
| "js_truthy (Some (JArr vs)) = True"
| "js_truthy (Some (JObj ms)) = True"

text \<open>
  What the handler takes from its environment: \<open>JSON.parse\<close> (\<open>Inl\<close> is the message of the
  SyntaxError it throws), the message of the TypeError that reading a property of
  \<open>null\<close> or \<open>undefined\<close> throws, and whether the parent passed the
  \<open>onWorkflowGenerated\<close> callback.  The callbacks of the parent set its state and do not
  throw.
\<close>

record engine =
  JSON_parse :: "string \<Rightarrow> string + json"
  typeErrorMessage :: "string \<Rightarrow> string"
  hasOnWorkflowGenerated :: bool

fun js_prop :: "engine \<Rightarrow> json \<Rightarrow> string \<Rightarrow> string + json option" where
  "js_prop eng JNull k = Inl (typeErrorMessage eng k)"
| "js_prop eng v k = Inr (js_get v k)"

subsection \<open>Messages and the state of the conversation builder\<close>

datatype sender = user | ai

record message =
  message_id :: string
  content :: string
  sender :: sender
  timestamp :: nat
  provider :: "string option"
  error :: "bool option"

record builder =
  messages :: "message list"
  showGenerateButton :: bool
  isGeneratingWorkflow :: bool
  workflowGenerated :: bool
  errorText :: string
  currentWorkflowId :: "string option"

text \<open>
  The answer of the generation request: the request itself failed (with a message), the
  route answered with an error status and an optional \<open>error\<close> text, or it answered with
  the generated \<open>content\<close> (\<open>None\<close> when the provider sent none) and the provider's name.
\<close>

datatype generation_response =
    RequestFailed string
  | NotOk "string option"
  | Ok "string option" "string option"

record generation_outcome =
  state :: builder
  storageWrites :: "(string \<times> json \<times> string) list"
  panelJson :: "string option"
  celebration :: "message option"

subsection \<open>Cleaning and validation (lines 561-608)\<close>

definition extractJson :: "string \<Rightarrow> string + string" where
  "extractJson raw =
    (let workflowJson = stripCloseFences (stripOpenFences (trim raw));
         jsonStart = indexOf workflowJson (CHR ''{'');
         jsonEnd = lastIndexOf workflowJson (CHR ''}'')
     in if jsonStart = - 1 \<or> jsonEnd = - 1 \<or> jsonEnd \<le> jsonStart then
          (if js_includes (toLowerCase workflowJson) ''sorry''
              \<or> js_includes (toLowerCase workflowJson) (''can'' @ [CHR 0x27] @ ''t generate'')
              \<or> js_includes (toLowerCase workflowJson) ''unable to''
           then Inl ''AI provided explanation instead of JSON. The system prompt may need adjustment.''
           else Inl ''AI did not generate valid JSON structure. Please try again.'')
        else Inr (substring workflowJson jsonStart (jsonEnd + 1)))"

definition node_invalid :: "engine \<Rightarrow> json \<Rightarrow> string + bool" where
  "node_invalid eng node =
     (case js_prop eng node ''name'' of
        Inl m \<Rightarrow> Inl m
      | Inr name \<Rightarrow>
          if \<not> js_truthy name then Inr True
          else (case js_prop eng node ''type'' of
                  Inl m \<Rightarrow> Inl m
                | Inr ty \<Rightarrow> Inr (\<not> js_truthy ty)))"

fun invalidNodes :: "engine \<Rightarrow> json list \<Rightarrow> string + json list" where
  "invalidNodes eng [] = Inr []"
| "invalidNodes eng (node # nodes) =
     (case node_invalid eng node of
        Inl m \<Rightarrow> Inl m
      | Inr bad \<Rightarrow>
          (case invalidNodes eng nodes of
             Inl m \<Rightarrow> Inl m
           | Inr rest \<Rightarrow> Inr (if bad then node # rest else rest)))"

definition missingNodesMessage :: string where
  "missingNodesMessage =
     ''Generated workflow is missing required '' @ [CHR 0x27] @ ''nodes'' @ [CHR 0x27] @ '' array''"

definition validateWorkflowJson :: "engine \<Rightarrow> string \<Rightarrow> string + json" where
  "validateWorkflowJson eng workflowJson =
     (case JSON_parse eng workflowJson of
        Inl m \<Rightarrow> Inl m
      | Inr parsed \<Rightarrow>
          (case js_prop eng parsed ''nodes'' of
             Inl m \<Rightarrow> Inl m
           | Inr (Some (JArr nodes)) \<Rightarrow>
               if length nodes = 0 then Inl ''Generated workflow has no nodes''
               else (case invalidNodes eng nodes of
                       Inl m \<Rightarrow> Inl m
                     | Inr bad \<Rightarrow>
                         if 0 < length bad
                         then Inl (''Generated workflow has '' @ decimal (length bad)
                                    @ '' invalid nodes missing name or type'')
                         else Inr parsed)
           | Inr _ \<Rightarrow> Inl missingNodesMessage))"

text \<open>The inner \<open>catch (parseError)\<close> and the outer \<open>catch (error)\<close> rewrite the message.\<close>

definition parseErrorMessage :: "string \<Rightarrow> string" where
  "parseErrorMessage m =
     (if js_includes m ''Unexpected token'' then ''AI generated malformed JSON. Please try again.''
      else if js_includes m ''nodes'' then m
      else ''JSON parsing failed: '' @ m)"

definition userErrorMessage :: "string \<Rightarrow> string" where
  "userErrorMessage m =
     (if js_includes m ''AI provided explanation''
      then ''AI provided explanation instead of JSON. Please try rephrasing your requirements and try again.''
      else if js_includes m ''system prompt''
      then ''System configuration issue. Please try again or contact support.''
      else if js_includes m ''JSON'' then ''JSON Error: '' @ m
      else if js_includes m ''nodes'' then ''Workflow Error: '' @ m
      else m)"

text \<open>
  \<open>generateArtifact\<close> is the body of the outer \<open>try\<close> up to the validated artifact: the
  cleaned text, the parsed workflow and the provider, or the message of the error thrown.
\<close>

definition generateArtifact ::
  "engine \<Rightarrow> generation_response \<Rightarrow> string + (string \<times> json \<times> string option)" where
  "generateArtifact eng response =
     (case response of
        RequestFailed m \<Rightarrow> Inl m
      | NotOk e \<Rightarrow>
          Inl (case e of Some m \<Rightarrow> if m \<noteq> [] then m else ''Failed to generate workflow''
               | None \<Rightarrow> ''Failed to generate workflow'')
      | Ok None p \<Rightarrow> Inl (typeErrorMessage eng ''substring'')
      | Ok (Some c) p \<Rightarrow>
          (case extractJson c of
             Inl m \<Rightarrow> Inl m
           | Inr workflowJson \<Rightarrow>
               (case validateWorkflowJson eng workflowJson of
                  Inl m \<Rightarrow> Inl (parseErrorMessage m)
                | Inr parsed \<Rightarrow> Inr (workflowJson, parsed, p))))"

definition crossMark :: string where
  "crossMark = [CHR 0xE2, CHR 0x9D, CHR 0x8C]"

definition partyPopper :: string where
  "partyPopper = [CHR 0xF0, CHR 0x9F, CHR 0x8E, CHR 0x89]"

definition errorMessage_ai :: "nat \<Rightarrow> string \<Rightarrow> message" where
  "errorMessage_ai now errorMessage =
     \<lparr>message_id = decimal (now + 3),
      content = crossMark @ '' Workflow generation failed: '' @ errorMessage @ [CHR 10, CHR 10]
        @ ''Please ensure your requirements are clear and try again. You may need to provide more specific details about your automation needs.'',
      sender = ai, timestamp = now, provider = None, error = Some True\<rparr>"

definition celebrationMessage :: "nat \<Rightarrow> string option \<Rightarrow> message" where
  "celebrationMessage now p =
     \<lparr>message_id = decimal (now + 2),
      content = partyPopper @ '' Workflow generated successfully! You can view the complete n8n workflow JSON in the JSON tab on the right. Copy it and import it directly into your n8n instance.'',
      sender = ai, timestamp = now, provider = p, error = None\<rparr>"

text \<open>
  \<open>handleGenerateWorkflow\<close>: \<open>now\<close> is the clock when the error message is built, \<open>later\<close>
  the clock when the one-second timer of the success path builds its message.
\<close>

definition handleGenerateWorkflow ::
  "engine \<Rightarrow> nat \<Rightarrow> nat \<Rightarrow> generation_response \<Rightarrow> builder \<Rightarrow> generation_outcome" where
  "handleGenerateWorkflow eng now later response st =
    (let st0 = st\<lparr>isGeneratingWorkflow := True, showGenerateButton := False\<rparr> in
     case generateArtifact eng response of
       Inr (workflowJson, parsed, p) \<Rightarrow>
         \<lparr>state = st0\<lparr>workflowGenerated := True, isGeneratingWorkflow := False\<rparr>,
          storageWrites =
            (case currentWorkflowId st of
               Some wid \<Rightarrow> if wid \<noteq> [] then [(wid, parsed, ''generated'')] else []
             | None \<Rightarrow> []),
          panelJson = (if hasOnWorkflowGenerated eng then Some workflowJson else None),
          celebration = Some (celebrationMessage later p)\<rparr>
     | Inl m \<Rightarrow>
         \<lparr>state = st0\<lparr>errorText := userErrorMessage m, showGenerateButton := True,
              messages := messages st0 @ [errorMessage_ai now (userErrorMessage m)],
              isGeneratingWorkflow := False\<rparr>,
          storageWrites = [], panelJson = None, celebration = None\<rparr>)"


subsection \<open>A reference engine\<close>

text \<open>
  A reader for the JSON grammar (objects, arrays, strings with their escapes, numbers,
  \<open>true\<close>, \<open>false\<close>, \<open>null\<close>; white space is space, tab, line feed and carriage
  return), used where a concrete engine is needed.  The recursion is bounded by the
  length of the text, and a \<open>\u\<close> escape above 255 is outside the modelled characters.
\<close>

definition json_ws :: "char \<Rightarrow> bool" where
  "json_ws c = (of_char c \<in> {9, 10, 13, 32 :: nat})"

definition digit_val :: "char \<Rightarrow> nat option" where
  "digit_val c = (let n = (of_char c :: nat) in
     if 48 \<le> n \<and> n \<le> 57 then Some (n - 48) else None)"

definition hex_val :: "char \<Rightarrow> nat option" where
  "hex_val c = (let n = (of_char c :: nat) in
     if 48 \<le> n \<and> n \<le> 57 then Some (n - 48)
     else if 97 \<le> n \<and> n \<le> 102 then Some (n - 87)
     else if 65 \<le> n \<and> n \<le> 70 then Some (n - 55)
     else None)"

definition is_digit :: "char \<Rightarrow> bool" where
  "is_digit c = (digit_val c \<noteq> None)"

definition digits_value :: "string \<Rightarrow> nat" where
  "digits_value ds = foldl (\<lambda>a c. 10 * a + (case digit_val c of Some d \<Rightarrow> d | None \<Rightarrow> 0)) 0 ds"

fun parse_string :: "string \<Rightarrow> string \<Rightarrow> (string \<times> string) option" where
  "parse_string acc [] = None"
| "parse_string acc [c] = (if c = CHR 0x22 then Some (rev acc, []) else None)"
| "parse_string acc (c # e # es) =
     (if c = CHR 0x22 then Some (rev acc, e # es)
      else if c = CHR 0x5C then
        (if e = CHR 0x22 \<or> e = CHR 0x5C \<or> e = CHR ''/'' then parse_string (e # acc) es
         else if e = CHR ''b'' then parse_string (CHR 0x08 # acc) es
         else if e = CHR ''f'' then parse_string (CHR 0x0C # acc) es
         else if e = CHR ''n'' then parse_string (CHR 0x0A # acc) es
         else if e = CHR ''r'' then parse_string (CHR 0x0D # acc) es
         else if e = CHR ''t'' then parse_string (CHR 0x09 # acc) es
         else if e = CHR ''u'' then
           (case map hex_val (take 4 es) of
              [Some a, Some b, Some c', Some d] \<Rightarrow>
                (let v = ((a * 16 + b) * 16 + c') * 16 + d in
                 if v < 256 then parse_string (char_of v # acc) (drop 4 es) else None)
            | _ \<Rightarrow> None)
         else None)
      else if (of_char c :: nat) < 32 then None
      else parse_string (c # acc) (e # es))"

definition parse_number :: "string \<Rightarrow> (rat \<times> string) option" where
  "parse_number s =
    (let neg = startsWith s ''-'';
         s1 = (if neg then drop 1 s else s);
         ip = takeWhile is_digit s1;
         s2 = dropWhile is_digit s1
     in if ip = [] \<or> (1 < length ip \<and> hd ip = CHR ''0'') then None
        else
          let hasFrac = startsWith s2 ''.'';
              fp = (if hasFrac then takeWhile is_digit (drop 1 s2) else []);
              s3 = (if hasFrac then dropWhile is_digit (drop 1 s2) else s2)
          in if hasFrac \<and> fp = [] then None
             else
               let hasExp = startsWith s3 ''e'' \<or> startsWith s3 ''E'';
                   s4 = (if hasExp then drop 1 s3 else s3);
                   eneg = hasExp \<and> startsWith s4 ''-'';
                   s5 = (if hasExp \<and> (startsWith s4 ''-'' \<or> startsWith s4 ''+'')
                         then drop 1 s4 else s4);
                   ep = (if hasExp then takeWhile is_digit s5 else []);
                   s6 = (if hasExp then dropWhile is_digit s5 else s3)
               in if hasExp \<and> ep = [] then None
                  else
                    let mant = of_nat (digits_value ip)
                                 + of_nat (digits_value fp) / 10 ^ length fp;
                        ex = (if eneg then - int (digits_value ep) else int (digits_value ep));
                        v = mant * 10 powi ex
                    in Some (if neg then - v else v, s6))"

fun parse_value :: "nat \<Rightarrow> string \<Rightarrow> (json \<times> string) option"
  and parse_elements :: "nat \<Rightarrow> json list \<Rightarrow> string \<Rightarrow> (json \<times> string) option"
  and parse_members :: "nat \<Rightarrow> (string \<times> json) list \<Rightarrow> string \<Rightarrow> (json \<times> string) option"
where
  "parse_value 0 s = None"
| "parse_value (Suc f) s =
     (let r = dropWhile json_ws s in
      if startsWith r ''{'' then
        (let r1 = dropWhile json_ws (drop 1 r) in
         if startsWith r1 ''}'' then Some (JObj [], drop 1 r1) else parse_members f [] r1)
      else if startsWith r ''['' then
        (let r1 = dropWhile json_ws (drop 1 r) in
         if startsWith r1 '']'' then Some (JArr [], drop 1 r1) else parse_elements f [] r1)
      else if startsWith r [CHR 0x22] then
        (case parse_string [] (drop 1 r) of
           None \<Rightarrow> None
         | Some (str, rest) \<Rightarrow> Some (JStr str, rest))
      else if startsWith r ''true'' then Some (JBool True, drop 4 r)
      else if startsWith r ''false'' then Some (JBool False, drop 5 r)
      else if startsWith r ''null'' then Some (JNull, drop 4 r)
      else (case parse_number r of
              None \<Rightarrow> None
            | Some (v, rest) \<Rightarrow> Some (JNum v, rest)))"
| "parse_elements 0 acc s = None"
| "parse_elements (Suc f) acc s =
     (case parse_value f s of
        None \<Rightarrow> None
      | Some (v, r1) \<Rightarrow>
          (let r2 = dropWhile json_ws r1 in
           if startsWith r2 '','' then parse_elements f (v # acc) (drop 1 r2)
           else if startsWith r2 '']'' then Some (JArr (rev (v # acc)), drop 1 r2)
           else None))"
| "parse_members 0 acc s = None"
| "parse_members (Suc f) acc s =
     (let r = dropWhile json_ws s in
      if startsWith r [CHR 0x22] then
        (case parse_string [] (drop 1 r) of
           None \<Rightarrow> None
         | Some (k, r1) \<Rightarrow>
             (let r2 = dropWhile json_ws r1 in
              if startsWith r2 '':'' then
                (case parse_value f (drop 1 r2) of
                   None \<Rightarrow> None
                 | Some (v, r3) \<Rightarrow>
                     (let r4 = dropWhile json_ws r3 in
                      if startsWith r4 '','' then parse_members f ((k, v) # acc) (drop 1 r4)
                      else if startsWith r4 ''}'' then Some (JObj (rev ((k, v) # acc)), drop 1 r4)
                      else None))
              else None))
      else None)"

definition reference_parse :: "string \<Rightarrow> string + json" where
  "reference_parse s =
     (case parse_value (Suc (length s)) s of
        None \<Rightarrow> Inl ''Unexpected token in JSON''
      | Some (v, rest) \<Rightarrow>
          if dropWhile json_ws rest = [] then Inr v
          else Inl ''Unexpected non-whitespace character after JSON'')"

definition reference_engine :: engine where
  "reference_engine =
     \<lparr>JSON_parse = reference_parse,
      typeErrorMessage = (\<lambda>k. ''Cannot read properties of null (reading ''
         @ [CHR 0x27] @ k @ [CHR 0x27] @ '')''),
      hasOnWorkflowGenerated = True\<rparr>"

subsection \<open>Sample generation outputs\<close>

definition sample_json :: string where
  \<open>sample_json = ''{"nodes":[{"name":"A","type":"t"}],"connections":{}}''\<close>


definition sample_workflow :: json where
  "sample_workflow =
     JObj [(''nodes'', JArr [JObj [(''name'', JStr ''A''), (''type'', JStr ''t'')]]),
           (''connections'', JObj [])]"

definition empty_nodes_output :: string where
  \<open>empty_nodes_output = ''{"nodes": [], "connections": {}}''\<close>

definition missing_type_output :: string where
  \<open>missing_type_output = ''{"nodes": [{"name": "A", "type": "t"}, {"name": "B"}], "connections": {}}''\<close>

definition empty_nodes_workflow :: json where
  "empty_nodes_workflow = JObj [(''nodes'', JArr []), (''connections'', JObj [])]"

definition missing_type_workflow :: json where
  "missing_type_workflow =
     JObj [(''nodes'', JArr [JObj [(''name'', JStr ''A''), (''type'', JStr ''t'')],
                            JObj [(''name'', JStr ''B'')]]),
           (''connections'', JObj [])]"

text \<open>Outputs whose list of nodes has a \<open>null\<close> entry.\<close>

definition null_node_output :: string where
  \<open>null_node_output = ''{"nodes": [null], "connections": {}}''\<close>

definition null_node_workflow :: json where
  "null_node_workflow = JObj [(''nodes'', JArr [JNull]), (''connections'', JObj [])]"

definition null_after_invalid_output :: string where
  \<open>null_after_invalid_output = ''{"nodes": [{"name": "B"}, null], "connections": {}}''\<close>

definition well_formed_node :: "json \<Rightarrow> bool" where
  "well_formed_node v = (js_truthy (js_get v ''name'') \<and> js_truthy (js_get v ''type''))"

definition no_bounding_pair :: "string \<Rightarrow> bool" where
  "no_bounding_pair raw =
     (let w = stripCloseFences (stripOpenFences (trim raw)) in
      indexOf w (CHR ''{'') = - 1 \<or> lastIndexOf w (CHR ''}'') = - 1
      \<or> lastIndexOf w (CHR ''}'') \<le> indexOf w (CHR ''{''))"

definition example_builder :: builder where
  "example_builder =
     \<lparr>messages = [], showGenerateButton = True, isGeneratingWorkflow = False,
      workflowGenerated = False, errorText = [], currentWorkflowId = Some ''wf-1''\<rparr>"

definition prose_output :: string where
  "prose_output = ''Sorry, I am unable to do that.''"

section \<open>Debounced auto-save of the message log\<close>

text \<open>
  The auto-save effect of the conversation builder (lines 166-244) and the timer it sets.
  The component state of the builder is extended by the refs the effect uses: the
  transition flag, the hash of the last successful save, the workflow id and messages
  mirrored in \<open>workflowStateRef\<close>, the live timer (its deadline and the workflow id,
  messages and hash captured by its callback), whether the last run of the effect left a
  cleanup function, and the calls of \<open>updateWorkflowChatHistory\<close> made so far (time,
  workflow id, chat history).  Time is in milliseconds.  The hash is
  \<open>JSON.stringify\<close> of the list of \<open>id + content + sender\<close>; \<open>JSON.stringify\<close> is
  injective on lists of strings, so the list itself stands for it.
\<close>

fun sender_name :: "sender \<Rightarrow> string" where
  "sender_name user = ''user''"
| "sender_name ai = ''ai''"

definition messagesHash :: "message list \<Rightarrow> string list" where
  "messagesHash ms = map (\<lambda>m. message_id m @ content m @ sender_name (sender m)) ms"

record component = builder +
  isTransitioningRef :: bool
  lastSavedHashRef :: "string list"
  workflowStateRef :: "string option \<times> message list"
  autoSaveTimeout :: "(nat \<times> string \<times> message list \<times> string list) option"
  cleanupPending :: bool
  saveCalls :: "(nat \<times> string \<times> message list) list"

definition autoSaveEffect :: "nat \<Rightarrow> component \<Rightarrow> component" where
  "autoSaveEffect now s0 =
    (let s = (if cleanupPending s0 then s0\<lparr>autoSaveTimeout := None, cleanupPending := False\<rparr>
              else s0)
     in if isTransitioningRef s then s
        else case currentWorkflowId s of
          None \<Rightarrow> s
        | Some wid \<Rightarrow>
            if wid = [] \<or> length (messages s) \<le> 1 then s
            else if fst (workflowStateRef s) \<noteq> currentWorkflowId s then s
            else if messagesHash (messages s) = lastSavedHashRef s then s
            else s\<lparr>autoSaveTimeout :=
                     Some (now + 3000, wid, messages s, messagesHash (messages s)),
                   cleanupPending := True\<rparr>)"

text \<open>
  A mutation of the message log: the new log is rendered, the first effect mirrors it in
  \<open>workflowStateRef\<close>, and the auto-save effect runs.
\<close>

definition setMessages :: "nat \<Rightarrow> message list \<Rightarrow> component \<Rightarrow> component" where
  "setMessages now ms s =
     autoSaveEffect now (s\<lparr>messages := ms, workflowStateRef := (currentWorkflowId s, ms)\<rparr>)"

text \<open>The callback of the timer, up to its call of \<open>updateWorkflowChatHistory\<close>.\<close>

definition autoSaveTimerFires :: "component \<Rightarrow> component" where
  "autoSaveTimerFires s =
     (case autoSaveTimeout s of
        None \<Rightarrow> s
      | Some (deadline, wid, ms, h) \<Rightarrow>
          let s1 = s\<lparr>autoSaveTimeout := None\<rparr> in
          if fst (workflowStateRef s) \<noteq> Some wid \<or> isTransitioningRef s then s1
          else if messagesHash ms \<noteq> h then s1
          else s1\<lparr>saveCalls := saveCalls s @ [(deadline, wid, ms)]\<rparr>)"

text \<open>When the save reports success, its hash becomes the last saved hash.\<close>

definition saveCompleted :: "bool \<Rightarrow> string list \<Rightarrow> component \<Rightarrow> component" where
  "saveCompleted success h s = (if success then s\<lparr>lastSavedHashRef := h\<rparr> else s)"

text \<open>The clock reaches \<open>t\<close>: a timer whose deadline has come fires.\<close>

definition advance :: "nat \<Rightarrow> component \<Rightarrow> component" where
  "advance t s =
     (case autoSaveTimeout s of
        None \<Rightarrow> s
      | Some (deadline, c) \<Rightarrow> if deadline \<le> t then autoSaveTimerFires s else s)"

fun run :: "(nat \<times> message list) list \<Rightarrow> component \<Rightarrow> component" where
  "run [] s = s"
| "run ((t, ms) # es) s = run es (setMessages t ms (advance t s))"

text \<open>A burst: each mutation comes less than 3000 ms after the one before.\<close>

fun within_window :: "nat list \<Rightarrow> bool" where
  "within_window (t1 # t2 # ts) = (t1 \<le> t2 \<and> t2 < t1 + 3000 \<and> within_window (t2 # ts))"
| "within_window ts = True"

text \<open>
  \<open>updateWorkflowChatHistory\<close> of the storage client (after its own one-second timer):
  \<open>stored\<close> is the chat history the server returns for the workflow (\<open>None\<close> when it is
  not found or the request fails), and \<open>putAnswer\<close> is what comes back for the PUT:
  \<open>None\<close> when \<open>fetch\<close> rejects, otherwise the status and whether the body reads as
  JSON.  The promise resolves to \<open>true\<close> only for a status from 200 to 299 whose body
  \<open>response.json()\<close> can read; a 409, any other status, and a body that is not JSON
  (the exception is caught) resolve to \<open>false\<close>.  The result is what the promise resolves
  to and the PUT requests issued.
\<close>

definition storedHash :: "message list \<Rightarrow> string list" where
  "storedHash ms = map (\<lambda>m. message_id m @ content m) ms"

definition updateWorkflowChatHistory ::
  "message list option \<Rightarrow> (nat \<times> bool) option \<Rightarrow> message list
     \<Rightarrow> bool \<times> message list list" where
  "updateWorkflowChatHistory stored putAnswer chatHistory =
     (case stored of
        None \<Rightarrow> (False, [])
      | Some current \<Rightarrow>
          if length current > length chatHistory + 2 then (False, [])
          else if \<bar>int (length current) - int (length chatHistory)\<bar> \<le> 2
                  \<and> storedHash current = storedHash chatHistory
          then (True, [])
          else (case putAnswer of
                  None \<Rightarrow> (False, [chatHistory])
                | Some (status, bodyIsJson) \<Rightarrow>
                    (200 \<le> status \<and> status < 300 \<and> bodyIsJson, [chatHistory])))"

definition timer_ok :: "nat \<Rightarrow> component \<Rightarrow> bool" where
  "timer_ok t s =
     (case autoSaveTimeout s of
        None \<Rightarrow> True
      | Some (deadline, c) \<Rightarrow> t < deadline \<and> cleanupPending s)"

definition armed :: "nat \<Rightarrow> component \<Rightarrow> bool" where
  "armed t s =
     (case autoSaveTimeout s of
        None \<Rightarrow> True
      | Some (deadline, wid, ms, h) \<Rightarrow>
          deadline = t + 3000 \<and> cleanupPending s \<and> currentWorkflowId s = Some wid
          \<and> fst (workflowStateRef s) = Some wid \<and> ms = messages s \<and> h = messagesHash ms)"

definition chat :: "string \<Rightarrow> sender \<Rightarrow> string \<Rightarrow> message" where
  "chat i who c = \<lparr>message_id = i, content = c, sender = who, timestamp = 0,
     provider = None, error = None\<rparr>"

definition example_component :: component where
  "example_component =
     \<lparr>messages = [chat ''initial'' ai ''Hi!''], showGenerateButton = False,
      isGeneratingWorkflow = False, workflowGenerated = False, errorText = [],
      currentWorkflowId = Some ''wf-1'',
      isTransitioningRef = False, lastSavedHashRef = messagesHash [chat ''initial'' ai ''Hi!''],
      workflowStateRef = (Some ''wf-1'', [chat ''initial'' ai ''Hi!'']),
      autoSaveTimeout = None, cleanupPending = False, saveCalls = []\<rparr>"

definition example_burst :: "(nat \<times> message list) list" where
  "example_burst =
     [(0, [chat ''initial'' ai ''Hi!'', chat ''1'' user ''send mail daily'']),
      (400, [chat ''initial'' ai ''Hi!'', chat ''1'' user ''send mail daily'',
             chat ''2'' ai ''To whom?'']),
      (900, [chat ''initial'' ai ''Hi!'', chat ''1'' user ''send mail daily'',
             chat ''2'' ai ''To whom?'', chat ''3'' user ''to the team''])]"

section \<open>Properties of the requirement tracker\<close>

subsection \<open>Rounding to a double is monotone\<close>

lemma rne_lower: "\<lfloor>x\<rfloor> \<le> rne x"
  by (simp add: rne_def Let_def)

lemma rne_upper: "rne x \<le> \<lfloor>x\<rfloor> + 1"
  by (simp add: rne_def Let_def)

lemma rne_of_int [simp]: "rne (of_int k) = k"
  by (simp add: rne_def Let_def)

lemma rne_mono: "x \<le> y \<Longrightarrow> rne x \<le> rne y"
proof -
  assume xy: "x \<le> y"
  have f: "\<lfloor>x\<rfloor> \<le> \<lfloor>y\<rfloor>" using xy by (rule floor_mono)
  show ?thesis
  proof (cases "\<lfloor>x\<rfloor> = \<lfloor>y\<rfloor>")
    case True
    have "x - of_int \<lfloor>x\<rfloor> \<le> y - of_int \<lfloor>y\<rfloor>" using xy True by simp
    then show ?thesis using True by (auto simp: rne_def Let_def)
  next
    case False
    then have "\<lfloor>x\<rfloor> + 1 \<le> \<lfloor>y\<rfloor>" using f by simp
    then show ?thesis using rne_upper [of x] rne_lower [of y] by linarith
  qed
qed

lemma rne_ge: "of_int k \<le> x \<Longrightarrow> k \<le> rne x"
  using rne_mono [of "of_int k" x] by simp

lemma rne_le: "x \<le> of_int k \<Longrightarrow> rne x \<le> k"
  using rne_mono [of x "of_int k"] by simp

lemma ilog2_bounds: "0 < x \<Longrightarrow> 2 powi (ilog2 x) \<le> x \<and> x < 2 powi (ilog2 x + 1)"
proof (induction x rule: ilog2.induct)
  case (1 x)
  show ?case
  proof (cases "x < 1")
    case True
    then have e: "ilog2 x = ilog2 (2 * x) - 1" using 1(3) by (subst ilog2.simps) simp
    have ih: "2 powi (ilog2 (2 * x)) \<le> 2 * x \<and> 2 * x < 2 powi (ilog2 (2 * x) + 1)"
      using 1(1)[of] 1(3) True by simp
    show ?thesis unfolding e using ih
      by (simp add: power_int_diff power_int_add)
  next
    case False
    show ?thesis
    proof (cases "2 \<le> x")
      case True
      then have e: "ilog2 x = ilog2 (x / 2) + 1" using 1(3) False by (subst ilog2.simps) simp
      have ih: "2 powi (ilog2 (x / 2)) \<le> x / 2 \<and> x / 2 < 2 powi (ilog2 (x / 2) + 1)"
        using 1(2) 1(3) True False by simp
      show ?thesis unfolding e using ih
        by (simp add: power_int_diff power_int_add)
    next
      case F2: False
      then have e: "ilog2 x = 0" using 1(3) False by (subst ilog2.simps) simp
      show ?thesis unfolding e using False F2 by simp
    qed
  qed
qed

lemma ilog2_mono:
  assumes "0 < x" "x \<le> y"
  shows "ilog2 x \<le> ilog2 y"
proof (rule ccontr)
  assume "\<not> ilog2 x \<le> ilog2 y"
  then have "ilog2 y + 1 \<le> ilog2 x" by simp
  then have "(2::rat) powi (ilog2 y + 1) \<le> 2 powi (ilog2 x)"
    by (intro power_int_increasing) simp_all
  moreover have "2 powi (ilog2 x) \<le> x" using ilog2_bounds [of x] assms by simp
  moreover have "y < 2 powi (ilog2 y + 1)" using ilog2_bounds [of y] assms by simp
  ultimately show False using assms by linarith
qed

lemma rd_bounds:
  assumes "0 < x"
  shows "2 powi (ilog2 x) \<le> rd x \<and> rd x \<le> 2 powi (ilog2 x + 1)"
proof -
  define e where "e = ilog2 x"
  define u :: rat where "u = 2 powi (e - 52)"
  have u0: "0 < u" by (simp add: u_def)
  have lo: "2 powi e = of_int (2 ^ 52) * u" by (simp add: u_def power_int_diff)
  have hi: "2 powi (e + 1) = of_int (2 ^ 53) * u"
    by (simp add: u_def power_int_diff power_int_add)
  have b: "2 powi e \<le> x" "x < 2 powi (e + 1)" using ilog2_bounds [OF assms] by (simp_all add: e_def)
  have "of_int (2 ^ 52) \<le> x / u" using b(1) u0 unfolding lo by (simp add: field_simps)
  then have l: "2 ^ 52 \<le> rne (x / u)" by (rule rne_ge)
  have "x / u \<le> of_int (2 ^ 53)" using b(2) u0 unfolding hi by (simp add: field_simps)
  then have h: "rne (x / u) \<le> 2 ^ 53" by (rule rne_le)
  have r: "rd x = of_int (rne (x / u)) * u" using assms by (simp add: rd_def u_def e_def Let_def)
  have "of_int (2 ^ 52) * u \<le> of_int (rne (x / u)) * u"
    using l u0 by (intro mult_right_mono) (simp_all del: of_int_power of_int_numeral)
  moreover have "of_int (rne (x / u)) * u \<le> of_int (2 ^ 53) * u"
    using h u0 by (intro mult_right_mono) (simp_all del: of_int_power of_int_numeral)
  ultimately show ?thesis unfolding r lo hi e_def [symmetric] by simp
qed

lemma rd_nonneg: "0 \<le> rd x"
proof (cases "0 < x")
  case True
  have "(0::rat) \<le> 2 powi (ilog2 x)" by simp
  then show ?thesis using rd_bounds [OF True] by linarith
next
  case False
  then show ?thesis by (simp add: rd_def)
qed

lemma rd_mono:
  assumes "x \<le> y"
  shows "rd x \<le> rd y"
proof (cases "0 < x")
  case False
  then have "rd x = 0" by (simp add: rd_def)
  then show ?thesis using rd_nonneg [of y] by simp
next
  case True
  then have y0: "0 < y" using assms by simp
  have le: "ilog2 x \<le> ilog2 y" using ilog2_mono [OF True assms] .
  show ?thesis
  proof (cases "ilog2 x = ilog2 y")
    case eq: True
    define u :: rat where "u = 2 powi (ilog2 y - 52)"
    have u0: "0 < u" by (simp add: u_def)
    have "x / u \<le> y / u" using assms u0 by (simp add: divide_right_mono)
    then have "rne (x / u) \<le> rne (y / u)" by (rule rne_mono)
    then have "of_int (rne (x / u)) * u \<le> of_int (rne (y / u)) * u"
      using u0 by (intro mult_right_mono) simp_all
    then show ?thesis using True y0 eq by (simp add: rd_def u_def Let_def)
  next
    case False
    then have "ilog2 x + 1 \<le> ilog2 y" using le by simp
    then have "(2::rat) powi (ilog2 x + 1) \<le> 2 powi (ilog2 y)"
      by (intro power_int_increasing) simp_all
    then show ?thesis using rd_bounds [OF True] rd_bounds [OF y0] by linarith
  qed
qed

subsection \<open>Phases, idempotence, focus\<close>

lemma phase_step:
  "phase (updateConversationState s m r) = phase s
   \<or> (phase s = discovery \<and> phase (updateConversationState s m r) = validation
       \<and> js_ge (completeness (updateConversationState s m r)) 80)
   \<or> (phase s = validation \<and> phase (updateConversationState s m r) = generation
       \<and> js_ge (completeness (updateConversationState s m r)) 90)"
  by (simp add: updateConversationState_def Let_def)

lemma phase_rank_step: "phase_rank (phase s) \<le> phase_rank (phase (updateConversationState s m r))"
  using phase_step [of s m r] by auto

lemma phase_rank_updates: "phase_rank (phase s) \<le> phase_rank (phase (updates s turns))"
proof (induction turns arbitrary: s)
  case Nil
  show ?case by simp
next
  case (Cons t turns)
  obtain m r where t: "t = (m, r)" by (cases t)
  have "phase_rank (phase s) \<le> phase_rank (phase (updateConversationState s m r))"
    by (rule phase_rank_step)
  also have "\<dots> \<le> phase_rank (phase (updates (updateConversationState s m r) turns))"
    by (rule Cons.IH)
  finally show ?case by (simp add: t)
qed


text \<open>
  C4.  A single update changes the phase only from discovery to validation, and then the
  newly computed completeness is at least 80, or from validation to generation, and then
  it is at least 90; over any sequence of updates the phase never moves backward in the
  order discovery, validation, generation, complete; and the state that is created after
  a reset starts in discovery again.
\<close>

theorem phase_progression:
  "(phase (updateConversationState s m r) = phase s
    \<or> (phase s = discovery \<and> phase (updateConversationState s m r) = validation
        \<and> js_ge (completeness (updateConversationState s m r)) 80)
    \<or> (phase s = validation \<and> phase (updateConversationState s m r) = generation
        \<and> js_ge (completeness (updateConversationState s m r)) 90))
   \<and> phase_rank (phase s) \<le> phase_rank (phase (updates s turns))
   \<and> phase (newConversationState u) = discovery"
  using phase_step [of s m r] phase_rank_updates [of s turns]
  by (simp add: newConversationState_def)

lemma analyze_idem:
  "analyzeAndUpdateRequirements (analyzeAndUpdateRequirements reqs m r) m r
     = analyzeAndUpdateRequirements reqs m r"
  by (simp add: analyzeAndUpdateRequirements_def Let_def checkIfRequirementAnswered_def
      checkIfRequirementInResponse_def)

text \<open>
  C6.  Calling update a second time with the same user message and assistant reply on the
  result of the first call changes neither the completeness nor any answered flag.
\<close>

theorem update_idempotent:
  "completeness (updateConversationState (updateConversationState s m r) m r)
     = completeness (updateConversationState s m r)
   \<and> map answered (requirements (updateConversationState (updateConversationState s m r) m r))
     = map answered (requirements (updateConversationState s m r))"
  by (simp add: updateConversationState_def Let_def analyze_idem)

lemma filter_hd_find:
  "filter P xs \<noteq> [] \<Longrightarrow> List.find P xs = Some (hd (filter P xs))"
  by (induction xs) auto

lemma find_None_filter: "List.find P xs = None \<Longrightarrow> filter P xs = []"
  by (induction xs) (auto split: if_splits)

lemma find_Some_filter: "List.find P xs = Some x \<Longrightarrow> filter P xs \<noteq> [] \<and> hd (filter P xs) = x"
  by (induction xs) (auto split: if_splits)

text \<open>
  C9, as amended.  After every update, currentFocus is the category of the first
  unanswered high-priority requirement; if every high-priority requirement is answered,
  the category of the first unanswered requirement; and if every requirement is answered,
  the string "Ready for generation".
\<close>

theorem currentFocus_reports:
  "currentFocus (updateConversationState s m r)
     = Some (getCurrentFocus (requirements (updateConversationState s m r)))
   \<and> getCurrentFocus reqs =
      (case List.find (\<lambda>q. \<not> answered q \<and> priority q = high) reqs of
         Some q \<Rightarrow> category_name (category q)
       | None \<Rightarrow> (case List.find (\<lambda>q. \<not> answered q) reqs of
           Some q \<Rightarrow> category_name (category q)
         | None \<Rightarrow> ''Ready for generation''))"
proof
  show "currentFocus (updateConversationState s m r)
     = Some (getCurrentFocus (requirements (updateConversationState s m r)))"
    by (simp add: updateConversationState_def Let_def)
next
  let ?U = "\<lambda>q. \<not> answered q"
  let ?H = "\<lambda>q. \<not> answered q \<and> priority q = high"
  have hp: "filter (\<lambda>q. priority q = high) (filter ?U reqs) = filter ?H reqs"
    by (simp add: conj_commute)
  show "getCurrentFocus reqs =
      (case List.find ?H reqs of
         Some q \<Rightarrow> category_name (category q)
       | None \<Rightarrow> (case List.find ?U reqs of
           Some q \<Rightarrow> category_name (category q)
         | None \<Rightarrow> ''Ready for generation''))"
  proof (cases "List.find ?H reqs")
    case (Some q)
    from find_Some_filter [OF Some] have h: "filter ?H reqs \<noteq> []" "hd (filter ?H reqs) = q"
      by simp_all
    have "filter ?U reqs \<noteq> []"
    proof
      assume "filter ?U reqs = []"
      then have "filter (\<lambda>q. priority q = high) (filter ?U reqs) = []" by simp
      with hp h(1) show False by simp
    qed
    then show ?thesis using Some h hp by (simp add: getCurrentFocus_def Let_def)
  next
    case None
    have h: "filter ?H reqs = []" using find_None_filter [OF None] .
    show ?thesis
    proof (cases "List.find ?U reqs")
      case N2: None
      have "filter ?U reqs = []" using find_None_filter [OF N2] .
      then show ?thesis using None N2 by (simp add: getCurrentFocus_def Let_def)
    next
      case (Some q)
      from find_Some_filter [OF Some] have "filter ?U reqs \<noteq> []" "hd (filter ?U reqs) = q"
        by simp_all
      then show ?thesis using None Some h hp by (simp add: getCurrentFocus_def Let_def)
    qed
  qed
qed

text \<open>
  C9, as stated, fails: when every requirement is answered the focus is not the string
  "ready".
\<close>

theorem currentFocus_ready_counterexample:
  "getCurrentFocus [\<lparr>category = scope, question = ''q'', answered = True,
      answer = Some ''a'', priority = high\<rparr>] \<noteq> ''ready''"
  by (simp add: getCurrentFocus_def)





lemma example_state_run:
  "completeness (updateConversationState example_state ''automate invoices'' ''ok'') = Num 100
   \<and> phase (updateConversationState example_state ''automate invoices'' ''ok'') = validation
   \<and> shouldGenerateWorkflow (updateConversationState
         (updateConversationState example_state ''automate invoices'' ''ok'') ''yes'' ''ok'')
   \<and> answered (hd (requirements (updateConversationState example_state ''automate invoices'' ''ok'')))
   \<and> answered (hd (requirements (updateConversationState
         (updateConversationState example_state ''automate invoices'' ''ok'') ''yes'' ''ok'')))"
  by code_simp


subsection \<open>Monotone completeness\<close>

lemma baseCompleteness_mono:
  "a \<le> b \<Longrightarrow> js_nondecreasing (baseCompleteness a n) (baseCompleteness b n)"
proof -
  assume ab: "a \<le> b"
  show ?thesis
  proof (cases "n = 0")
    case True
    then show ?thesis by (simp add: baseCompleteness_def)
  next
    case False
    have "(of_nat a :: rat) / of_nat n \<le> of_nat b / of_nat n"
      using ab by (simp add: divide_right_mono)
    then have "rd (of_nat a / of_nat n) * 100 \<le> rd (of_nat b / of_nat n) * 100"
      using rd_mono by simp
    then have "rd (rd (of_nat a / of_nat n) * 100) \<le> rd (rd (of_nat b / of_nat n) * 100)"
      by (rule rd_mono)
    then have "Math_round (rd (rd (of_nat a / of_nat n) * 100))
        \<le> Math_round (rd (rd (of_nat b / of_nat n) * 100))"
      unfolding Math_round_def by (intro floor_mono) simp
    then show ?thesis using False by (simp add: baseCompleteness_def)
  qed
qed

lemma js_nondecreasing_max:
  "js_nondecreasing c d \<Longrightarrow> js_nondecreasing (Math_max c k) (Math_max d k)"
  by (cases c; cases d) auto

lemma js_nondecreasing_max_right:
  "js_nondecreasing c d \<Longrightarrow> js_nondecreasing c (Math_max d k)"
  by (cases c; cases d) auto

lemma gains_answered_count:
  "list_all2 only_gains rs rs' \<Longrightarrow>
     length (filter answered rs) \<le> length (filter answered rs')"
  by (induction rule: list_all2_induct) (auto simp: only_gains_def)

lemma gains_core:
  "list_all2 only_gains rs rs' \<Longrightarrow>
     list_all2 only_gains (filter (\<lambda>r. priority r = high) rs) (filter (\<lambda>r. priority r = high) rs')"
  by (induction rule: list_all2_induct) (auto simp: only_gains_def)

lemma calculateCompleteness_mono:
  assumes g: "list_all2 only_gains rs rs'"
  shows "js_nondecreasing (calculateCompleteness rs) (calculateCompleteness rs')"
proof -
  let ?core = "filter (\<lambda>r. priority r = high)"
  have len: "length rs = length rs'" using g by (rule list_all2_lengthD)
  have a: "length (filter answered rs) \<le> length (filter answered rs')"
    using g by (rule gains_answered_count)
  have clen: "length (?core rs) = length (?core rs')"
    using gains_core [OF g] by (rule list_all2_lengthD)
  have ca: "length (filter answered (?core rs)) \<le> length (filter answered (?core rs'))"
    using gains_core [OF g] by (rule gains_answered_count)
  have b: "js_nondecreasing (baseCompleteness (length (filter answered rs)) (length rs))
             (baseCompleteness (length (filter answered rs')) (length rs'))"
    unfolding len using a by (rule baseCompleteness_mono)
  have t: "coreThreshold (length (?core rs)) \<le> of_nat (length (filter answered (?core rs)))
       \<Longrightarrow> coreThreshold (length (?core rs')) \<le> of_nat (length (filter answered (?core rs')))"
  proof -
    assume "coreThreshold (length (?core rs)) \<le> of_nat (length (filter answered (?core rs)))"
    moreover have "(of_nat (length (filter answered (?core rs))) :: rat)
        \<le> of_nat (length (filter answered (?core rs')))" using ca by simp
    ultimately show ?thesis unfolding clen by linarith
  qed
  show ?thesis
    using b t js_nondecreasing_max js_nondecreasing_max_right
    by (auto simp: calculateCompleteness_def Let_def)
qed

lemma analyze_gains: "list_all2 only_gains rs (analyzeAndUpdateRequirements rs m r)"
  by (simp add: analyzeAndUpdateRequirements_def Let_def list_all2_map2 only_gains_def
      list_all2_same)

text \<open>
  C5.  The completeness never decreases from one update's result to the next, along every
  sequence of updates from every state (so from every state reachable from
  initialization); an update keeps the number of requirements and leaves every answered
  requirement answered.
\<close>

theorem completeness_monotonic:
  "js_nondecreasing (completeness (updateConversationState s m r))
      (completeness (updateConversationState (updateConversationState s m r) m' r'))
   \<and> successively js_nondecreasing (completeness_trace s turns)
   \<and> length (requirements (updateConversationState s m r)) = length (requirements s)
   \<and> list_all2 (\<lambda>q q'. answered q \<longrightarrow> answered q')
        (requirements s) (requirements (updateConversationState s m r))"
proof -
  have step: "js_nondecreasing (completeness (updateConversationState s0 m0 r0))
      (completeness (updateConversationState (updateConversationState s0 m0 r0) m1 r1))"
    for s0 m0 r0 m1 r1
    using calculateCompleteness_mono [OF analyze_gains]
    by (simp add: updateConversationState_def Let_def)
  have tr: "successively js_nondecreasing (completeness_trace s0 ts)" for s0 ts
  proof (induction ts arbitrary: s0)
    case Nil
    show ?case by simp
  next
    case (Cons t ts)
    obtain m0 r0 where t: "t = (m0, r0)" by (cases t)
    show ?case
    proof (cases ts)
      case Nil
      then show ?thesis by (simp add: t)
    next
      case (Cons t1 ts1)
      obtain m1 r1 where t1: "t1 = (m1, r1)" by (cases t1)
      have "successively js_nondecreasing (completeness_trace (updateConversationState s0 m0 r0) ts)"
        by (rule Cons.IH)
      then show ?thesis using step [of s0 m0 r0 m1 r1] by (simp add: t Cons t1)
    qed
  qed
  have fl: "list_all2 (\<lambda>q q'. answered q \<longrightarrow> answered q')
        (requirements s) (requirements (updateConversationState s m r))"
    using analyze_gains [of "requirements s" m r]
    by (auto simp: updateConversationState_def Let_def only_gains_def elim: list_all2_mono)
  have ln: "length (requirements (updateConversationState s m r)) = length (requirements s)"
    by (simp add: updateConversationState_def Let_def analyzeAndUpdateRequirements_def)
  from step tr fl ln show ?thesis by blast
qed

theorem completeness_monotonic_witness:
  "answered (hd (requirements (updateConversationState example_state ''automate invoices'' ''ok'')))
   \<and> answered (hd (requirements (updateConversationState
         (updateConversationState example_state ''automate invoices'' ''ok'') ''yes'' ''ok'')))
   \<and> js_nondecreasing
        (completeness (updateConversationState example_state ''automate invoices'' ''ok''))
        (completeness (updateConversationState
           (updateConversationState example_state ''automate invoices'' ''ok'') ''yes'' ''ok''))"
  using completeness_monotonic [of example_state "''automate invoices''" "''ok''" "''yes''" "''ok''" "[]"]
    example_state_run
  by blast

subsection \<open>The completeness formula\<close>










section \<open>Properties of the provider gateway\<close>

text \<open>
  C2, at a concrete input.  Both providers are configured, the first fails with a
  rate-limit error and the second succeeds: the response has fallback = true and
  errorCode = "RATE_LIMIT", and the first provider is in the suppression set afterwards;
  a second call inside the 30-minute window is answered by the second provider with
  silentFallback = true and raises no notification.  But the first response carries
  showNotification = false (the provider joins the suppression set before the flag is
  computed from it), so the client raises no notification for the first fallback either.
\<close>

theorem rate_limit_fallback_first_call_not_notified:
  "fst (chatTurn 1000 (Some both_keys) rate_limited (Returned ''Hello'') fresh_gateway) =
     Answer ((plainResponse ''Hello'' ''claude'')
         \<lparr>fallback := Some True, fallbackReason := Some ''OpenAI API rate limit exceeded'',
          errorCode := Some ''RATE_LIMIT'', originalProvider := Some ''openai'',
          fallbackProvider := Some ''claude'', showNotification := Some False\<rparr>)
   \<and> ''openai'' \<in> failedProviders
        (snd (chatTurn 1000 (Some both_keys) rate_limited (Returned ''Hello'') fresh_gateway))
   \<and> \<not> notifies ((plainResponse ''Hello'' ''claude'')
         \<lparr>fallback := Some True, fallbackReason := Some ''OpenAI API rate limit exceeded'',
          errorCode := Some ''RATE_LIMIT'', originalProvider := Some ''openai'',
          fallbackProvider := Some ''claude'', showNotification := Some False\<rparr>)
   \<and> fst (chatTurn 61000 (Some both_keys) rate_limited (Returned ''Again'')
        (snd (chatTurn 1000 (Some both_keys) rate_limited (Returned ''Hello'') fresh_gateway))) =
     Answer ((plainResponse ''Again'' ''claude'')\<lparr>silentFallback := Some True\<rparr>)
   \<and> \<not> notifies ((plainResponse ''Again'' ''claude'')\<lparr>silentFallback := Some True\<rparr>)"
  by code_simp

section \<open>Properties of workflow generation\<close>

lemma js_prop_not_null: "v \<noteq> JNull \<Longrightarrow> js_prop eng v k = Inr (js_get v k)"
  by (cases v) simp_all

lemma node_invalid_not_null:
  "v \<noteq> JNull \<Longrightarrow> node_invalid eng v = Inr (\<not> well_formed_node v)"
  by (simp add: node_invalid_def js_prop_not_null well_formed_node_def)

lemma node_invalid_Inr:
  assumes "node_invalid eng v = Inr b"
  shows "b = (\<not> well_formed_node v)"
proof (cases "v = JNull")
  case True
  then show ?thesis using assms by (simp add: node_invalid_def)
next
  case False
  from node_invalid_not_null [OF False, of eng] assms show ?thesis by simp
qed

lemma invalidNodes_Inr:
  "invalidNodes eng ns = Inr bad \<Longrightarrow> bad = filter (\<lambda>v. \<not> well_formed_node v) ns"
proof (induction ns arbitrary: bad)
  case Nil
  then show ?case by simp
next
  case (Cons v ns)
  from Cons.prems obtain b rest where b: "node_invalid eng v = Inr b"
    and r: "invalidNodes eng ns = Inr rest" and bad: "bad = (if b then v # rest else rest)"
    by (auto split: sum.splits)
  from Cons.IH [OF r] node_invalid_Inr [OF b] bad show ?case by simp
qed


lemma validate_no_nodes:
  assumes "JSON_parse eng cleaned = Inr parsed" "js_get parsed ''nodes'' = Some (JArr [])"
  shows "validateWorkflowJson eng cleaned = Inl ''Generated workflow has no nodes''"
proof -
  have "parsed \<noteq> JNull" using assms(2) by auto
  then show ?thesis using assms by (simp add: validateWorkflowJson_def js_prop_not_null)
qed


lemma validate_ill_formed:
  assumes "JSON_parse eng cleaned = Inr parsed" "js_get parsed ''nodes'' = Some (JArr nodes)"
    "\<not> list_all well_formed_node nodes"
  shows "isl (validateWorkflowJson eng cleaned)"
proof -
  have p: "parsed \<noteq> JNull" using assms(2) by auto
  have n: "nodes \<noteq> []" using assms(3) by auto
  show ?thesis
  proof (cases "invalidNodes eng nodes")
    case (Inl m)
    then show ?thesis using assms n
      by (simp add: validateWorkflowJson_def js_prop_not_null [OF p])
  next
    case (Inr bad)
    have "bad = filter (\<lambda>v. \<not> well_formed_node v) nodes" using invalidNodes_Inr [OF Inr] .
    moreover have "filter (\<lambda>v. \<not> well_formed_node v) nodes \<noteq> []"
      using assms(3) by (auto simp: list_all_iff filter_empty_conv)
    ultimately have "bad \<noteq> []" by simp
    then show ?thesis using assms n Inr
      by (simp add: validateWorkflowJson_def js_prop_not_null [OF p])
  qed
qed






lemma failure_outcome:
  assumes "generateArtifact eng response = Inl m"
  shows "handleGenerateWorkflow eng now later response st =
     \<lparr>state = st\<lparr>isGeneratingWorkflow := False, showGenerateButton := True,
          errorText := userErrorMessage m,
          messages := messages st @ [errorMessage_ai now (userErrorMessage m)]\<rparr>,
      storageWrites = [], panelJson = None, celebration = None\<rparr>"
  using assms by (simp add: handleGenerateWorkflow_def)


lemma reference_runs:
  "JSON_parse reference_engine sample_json = Inr sample_workflow
   \<and> hasOnWorkflowGenerated reference_engine
   \<and> generateArtifact reference_engine (Ok (Some empty_nodes_output) None)
       = Inl ''Generated workflow has no nodes''
   \<and> generateArtifact reference_engine (Ok (Some missing_type_output) None)
       = Inl ''Generated workflow has 1 invalid nodes missing name or type''"
  by code_simp


text \<open>
  C7.  When generation fails, nothing is written to storage, nothing is handed to the
  panel, an error-flagged assistant message is appended to the log, and the generate
  button is shown again; the workflow status and the generated flag stay as they were.
  Generation fails when no bounding pair of braces is found, when \<open>JSON.parse\<close> throws,
  when the nodes are the empty list, and when some node lacks a name or a type.
\<close>

theorem generation_failure_atomic:
  "(isl (generateArtifact eng response) \<longrightarrow>
      storageWrites (handleGenerateWorkflow eng now later response st) = []
      \<and> panelJson (handleGenerateWorkflow eng now later response st) = None
      \<and> celebration (handleGenerateWorkflow eng now later response st) = None
      \<and> showGenerateButton (state (handleGenerateWorkflow eng now later response st))
      \<and> \<not> isGeneratingWorkflow (state (handleGenerateWorkflow eng now later response st))
      \<and> workflowGenerated (state (handleGenerateWorkflow eng now later response st))
          = workflowGenerated st
      \<and> currentWorkflowId (state (handleGenerateWorkflow eng now later response st))
          = currentWorkflowId st
      \<and> (\<exists>msg. messages (state (handleGenerateWorkflow eng now later response st))
                  = messages st @ [msg]
               \<and> error msg = Some True \<and> sender msg = ai))
   \<and> (no_bounding_pair raw \<longrightarrow> isl (generateArtifact eng (Ok (Some raw) p)))
   \<and> (extractJson raw = Inr cleaned \<and> isl (JSON_parse eng cleaned) \<longrightarrow>
        isl (generateArtifact eng (Ok (Some raw) p)))
   \<and> (extractJson raw = Inr cleaned \<and> JSON_parse eng cleaned = Inr parsed
        \<and> js_get parsed ''nodes'' = Some (JArr []) \<longrightarrow>
        isl (generateArtifact eng (Ok (Some raw) p)))
   \<and> (extractJson raw = Inr cleaned \<and> JSON_parse eng cleaned = Inr parsed
        \<and> js_get parsed ''nodes'' = Some (JArr nodes) \<and> \<not> list_all well_formed_node nodes \<longrightarrow>
        isl (generateArtifact eng (Ok (Some raw) p)))"
proof (intro conjI impI)
  assume "isl (generateArtifact eng response)"
  then obtain m where m: "generateArtifact eng response = Inl m"
    by (cases "generateArtifact eng response") auto
  note o = failure_outcome [OF m, of now later st]
  show "storageWrites (handleGenerateWorkflow eng now later response st) = []"
    unfolding o by simp
  show "panelJson (handleGenerateWorkflow eng now later response st) = None"
    unfolding o by simp
  show "celebration (handleGenerateWorkflow eng now later response st) = None"
    unfolding o by simp
  show "showGenerateButton (state (handleGenerateWorkflow eng now later response st))"
    unfolding o by simp
  show "\<not> isGeneratingWorkflow (state (handleGenerateWorkflow eng now later response st))"
    unfolding o by simp
  show "workflowGenerated (state (handleGenerateWorkflow eng now later response st))
          = workflowGenerated st"
    unfolding o by simp
  show "currentWorkflowId (state (handleGenerateWorkflow eng now later response st))
          = currentWorkflowId st"
    unfolding o by simp
  show "\<exists>msg. messages (state (handleGenerateWorkflow eng now later response st))
                  = messages st @ [msg]
               \<and> error msg = Some True \<and> sender msg = ai"
    unfolding o by (simp add: errorMessage_ai_def)
next
  assume "no_bounding_pair raw"
  then have "isl (extractJson raw)"
    by (auto simp: no_bounding_pair_def extractJson_def Let_def)
  then show "isl (generateArtifact eng (Ok (Some raw) p))"
    by (cases "extractJson raw") (auto simp: generateArtifact_def)
next
  assume a: "extractJson raw = Inr cleaned \<and> isl (JSON_parse eng cleaned)"
  then have "isl (validateWorkflowJson eng cleaned)"
    by (cases "JSON_parse eng cleaned") (auto simp: validateWorkflowJson_def)
  then show "isl (generateArtifact eng (Ok (Some raw) p))"
    using a by (cases "validateWorkflowJson eng cleaned") (auto simp: generateArtifact_def)
next
  assume a: "extractJson raw = Inr cleaned \<and> JSON_parse eng cleaned = Inr parsed
        \<and> js_get parsed ''nodes'' = Some (JArr [])"
  then have "validateWorkflowJson eng cleaned = Inl ''Generated workflow has no nodes''"
    using validate_no_nodes [of eng cleaned parsed] by simp
  then show "isl (generateArtifact eng (Ok (Some raw) p))"
    using a by (simp add: generateArtifact_def)
next
  assume a: "extractJson raw = Inr cleaned \<and> JSON_parse eng cleaned = Inr parsed
        \<and> js_get parsed ''nodes'' = Some (JArr nodes) \<and> \<not> list_all well_formed_node nodes"
  then have "isl (validateWorkflowJson eng cleaned)"
    using validate_ill_formed [of eng cleaned parsed nodes] by simp
  then show "isl (generateArtifact eng (Ok (Some raw) p))"
    using a by (cases "validateWorkflowJson eng cleaned") (auto simp: generateArtifact_def)
qed

lemma prose_fails: "no_bounding_pair prose_output" by code_simp

theorem generation_failure_atomic_witness:
  "no_bounding_pair prose_output
   \<and> isl (generateArtifact reference_engine (Ok (Some prose_output) None))
   \<and> isl (generateArtifact reference_engine (Ok (Some missing_type_output) None))
   \<and> storageWrites (handleGenerateWorkflow reference_engine 1000 2000
        (Ok (Some missing_type_output) None) example_builder) = []
   \<and> showGenerateButton (state (handleGenerateWorkflow reference_engine 1000 2000
        (Ok (Some missing_type_output) None) example_builder))
   \<and> (\<exists>msg. messages (state (handleGenerateWorkflow reference_engine 1000 2000
        (Ok (Some missing_type_output) None) example_builder)) = messages example_builder @ [msg]
        \<and> error msg = Some True \<and> sender msg = ai)"
proof -
  note t = generation_failure_atomic [of reference_engine "Ok (Some missing_type_output) None"
      1000 2000 example_builder prose_output None "''x''" JNull "[]"]
  have i: "isl (generateArtifact reference_engine (Ok (Some missing_type_output) None))"
    using reference_runs by simp
  from t prose_fails have p: "isl (generateArtifact reference_engine (Ok (Some prose_output) None))"
    by blast
  from t i p prose_fails show ?thesis by blast
qed

section \<open>Properties of the debounced auto-save\<close>

lemma advance_early: "timer_ok t s \<Longrightarrow> advance t s = s"
  by (auto simp: timer_ok_def advance_def split: option.splits)

lemma setMessages_props:
  assumes "timer_ok t s"
  shows "saveCalls (setMessages t ms s) = saveCalls s"
    and "currentWorkflowId (setMessages t ms s) = currentWorkflowId s"
    and "isTransitioningRef (setMessages t ms s) = isTransitioningRef s"
    and "messages (setMessages t ms s) = ms"
    and "armed t (setMessages t ms s)"
  using assms
  by (auto simp: setMessages_def autoSaveEffect_def Let_def armed_def timer_ok_def
      split: option.splits)

lemma armed_timer_ok: "armed t s \<Longrightarrow> t' < t + 3000 \<Longrightarrow> timer_ok t' s"
  by (auto simp: armed_def timer_ok_def split: option.splits)

lemma run_burst:
  assumes "burst \<noteq> []" "within_window (map fst burst)" "timer_ok (fst (hd burst)) s"
  shows "saveCalls (run burst s) = saveCalls s
     \<and> currentWorkflowId (run burst s) = currentWorkflowId s
     \<and> isTransitioningRef (run burst s) = isTransitioningRef s
     \<and> messages (run burst s) = snd (last burst)
     \<and> armed (fst (last burst)) (run burst s)"
  using assms
proof (induction burst arbitrary: s)
  case Nil
  then show ?case by simp
next
  case (Cons e es)
  obtain t ms where e: "e = (t, ms)" by (cases e)
  have ok: "timer_ok t s" using Cons.prems(3) by (simp add: e)
  have adv: "advance t s = s" using advance_early [OF ok] .
  note p = setMessages_props [OF ok, of ms]
  show ?case
  proof (cases es)
    case Nil
    then show ?thesis using p by (simp add: e adv)
  next
    case (Cons e' es')
    obtain t' ms' where e': "e' = (t', ms')" by (cases e')
    have w: "t \<le> t'" "t' < t + 3000" "within_window (map fst es)"
      using Cons.prems(2) by (simp_all add: e Cons e')
    have ok': "timer_ok (fst (hd es)) (setMessages t ms s)"
      using armed_timer_ok [OF p(5) w(2)] by (simp add: Cons e')
    have ne: "es \<noteq> []" by (simp add: Cons)
    from Cons.IH [OF ne w(3) ok'] p show ?thesis by (simp add: e adv Cons)
  qed
qed

lemma advance_armed:
  assumes "armed t s"
  shows "saveCalls (advance T s) = saveCalls s
     \<or> (t + 3000 \<le> T \<and> \<not> isTransitioningRef s
        \<and> (\<exists>wid. currentWorkflowId s = Some wid
              \<and> saveCalls (advance T s) = saveCalls s @ [(t + 3000, wid, messages s)]))"
  using assms
  by (auto simp: armed_def advance_def autoSaveTimerFires_def Let_def split: option.splits)


text \<open>
  C8.  A burst of log mutations, each less than 3000 ms after the one before, that starts
  with no save pending leads to at most one call of the save, issued 3000 ms after the
  last mutation and carrying the log of that mutation (the log as it then stands).  The
  timer's callback saves nothing when the mirrored workflow id differs from the one it
  captured or a transition is in progress; a mutation that leaves the hash of the log
  equal to the last saved hash sets no timer, so nothing is saved; and each call of the
  storage client's save issues at most one PUT, carrying the chat history it was given.
\<close>

theorem debounced_autosave:
  "(burst \<noteq> [] \<and> within_window (map fst burst) \<and> autoSaveTimeout s = None \<longrightarrow>
      saveCalls (advance T (run burst s)) = saveCalls s
      \<or> (fst (last burst) + 3000 \<le> T
          \<and> (\<exists>wid. currentWorkflowId s = Some wid
                \<and> saveCalls (advance T (run burst s))
                    = saveCalls s @ [(fst (last burst) + 3000, wid, snd (last burst))])))
   \<and> (autoSaveTimeout s = Some (d, wid, ms, h)
        \<and> (fst (workflowStateRef s) \<noteq> Some wid \<or> isTransitioningRef s) \<longrightarrow>
      saveCalls (autoSaveTimerFires s) = saveCalls s)
   \<and> (autoSaveTimeout s = None \<and> messagesHash ms = lastSavedHashRef s \<longrightarrow>
      autoSaveTimeout (setMessages now ms s) = None
      \<and> saveCalls (advance T (setMessages now ms s)) = saveCalls s)
   \<and> length (snd (updateWorkflowChatHistory stored putAnswer chatHistory)) \<le> 1
   \<and> set (snd (updateWorkflowChatHistory stored putAnswer chatHistory)) \<subseteq> {chatHistory}"
proof (intro conjI impI)
  assume a: "burst \<noteq> [] \<and> within_window (map fst burst) \<and> autoSaveTimeout s = None"
  then have ok: "timer_ok (fst (hd burst)) s" by (simp add: timer_ok_def)
  from run_burst [of burst s] a ok
  have r: "saveCalls (run burst s) = saveCalls s"
      "currentWorkflowId (run burst s) = currentWorkflowId s"
      "messages (run burst s) = snd (last burst)"
      "armed (fst (last burst)) (run burst s)"
    by simp_all
  from advance_armed [OF r(4), of T] r(1,2,3)
  show "saveCalls (advance T (run burst s)) = saveCalls s
      \<or> (fst (last burst) + 3000 \<le> T
          \<and> (\<exists>wid. currentWorkflowId s = Some wid
                \<and> saveCalls (advance T (run burst s))
                    = saveCalls s @ [(fst (last burst) + 3000, wid, snd (last burst))]))"
    by auto
next
  assume "autoSaveTimeout s = Some (d, wid, ms, h)
        \<and> (fst (workflowStateRef s) \<noteq> Some wid \<or> isTransitioningRef s)"
  then show "saveCalls (autoSaveTimerFires s) = saveCalls s"
    by (auto simp: autoSaveTimerFires_def)
next
  assume a: "autoSaveTimeout s = None \<and> messagesHash ms = lastSavedHashRef s"
  then show n: "autoSaveTimeout (setMessages now ms s) = None"
    by (auto simp: setMessages_def autoSaveEffect_def Let_def split: option.splits)
  have "timer_ok now s" using a by (simp add: timer_ok_def)
  then have "saveCalls (setMessages now ms s) = saveCalls s" by (rule setMessages_props)
  then show "saveCalls (advance T (setMessages now ms s)) = saveCalls s"
    using n by (simp add: advance_def)
next
  show "length (snd (updateWorkflowChatHistory stored putAnswer chatHistory)) \<le> 1"
    by (simp add: updateWorkflowChatHistory_def split: option.splits prod.splits)
  show "set (snd (updateWorkflowChatHistory stored putAnswer chatHistory)) \<subseteq> {chatHistory}"
    by (simp add: updateWorkflowChatHistory_def split: option.splits prod.splits)
qed

lemma example_burst_run:
  "example_burst \<noteq> [] \<and> within_window (map fst example_burst)
   \<and> autoSaveTimeout example_component = None
   \<and> saveCalls example_component = []
   \<and> currentWorkflowId example_component = Some ''wf-1''
   \<and> fst (last example_burst) = 900
   \<and> length (saveCalls (advance 3900 (run example_burst example_component))) = 1
   \<and> saveCalls (advance 3899 (run example_burst example_component)) = []"
  by code_simp

theorem debounced_autosave_witness:
  "example_burst \<noteq> [] \<and> within_window (map fst example_burst)
   \<and> autoSaveTimeout example_component = None
   \<and> saveCalls (advance 3900 (run example_burst example_component))
       = [(3900, ''wf-1'', snd (last example_burst))]
   \<and> saveCalls (advance 3899 (run example_burst example_component)) = []"
proof -
  note t = debounced_autosave [where burst = example_burst and s = example_component
      and T = 3900]
  from t example_burst_run
  have "saveCalls (advance 3900 (run example_burst example_component)) = saveCalls example_component
      \<or> (\<exists>wid. currentWorkflowId example_component = Some wid
                \<and> saveCalls (advance 3900 (run example_burst example_component))
                    = saveCalls example_component
                        @ [(fst (last example_burst) + 3000, wid, snd (last example_burst))])"
    by blast
  with example_burst_run
  have "saveCalls (advance 3900 (run example_burst example_component))
       = [(3900, ''wf-1'', snd (last example_burst))]"
    by auto
  with example_burst_run show ?thesis by simp
qed

end
